theory Spec2Isabelle
  imports Main "HOL-Library.Word"
begin

section \<open>Strings\<close>

text \<open>
  A JavaScript string is a sequence of UTF-16 code units. The source compares strings
  with \<open>===\<close>, concatenates them, and tests them against one regular expression, so a
  list of 16-bit words carries everything the code looks at. \<open>str\<close> embeds an ASCII
  literal of the source.
\<close>

type_synonym jschar = "16 word"
type_synonym jsstring = "jschar list"

definition str :: "string \<Rightarrow> jsstring" where
  "str s = map of_char s"

definition ESC :: jschar where "ESC = 0x1B"
definition LF :: jschar where "LF = 0x0A"
definition GT :: jschar where "GT = 0x3E"

text \<open>ECMAScript's LineTerminator: LF, CR, LS (U+2028) and PS (U+2029).\<close>

definition isLineTerminator :: "jschar \<Rightarrow> bool" where
  "isLineTerminator c = (c = 0x0A \<or> c = 0x0D \<or> c = 0x2028 \<or> c = 0x2029)"

text \<open>
  ECMAScript's WhiteSpace (TAB, VT, FF, SP, NBSP, ZWNBSP and the space separators of
  Unicode); \<open>\s\<close> and \<open>String.prototype.trim\<close> take WhiteSpace and LineTerminator.
\<close>

definition isWhiteSpace :: "jschar \<Rightarrow> bool" where
  "isWhiteSpace c =
     (c = 0x09 \<or> c = 0x0B \<or> c = 0x0C \<or> c = 0x20 \<or> c = 0xA0 \<or> c = 0xFEFF \<or>
      c = 0x1680 \<or> (0x2000 \<le> c \<and> c \<le> 0x200A) \<or> c = 0x202F \<or> c = 0x205F \<or> c = 0x3000)"

definition isSpace :: "jschar \<Rightarrow> bool" where
  "isSpace c = (isWhiteSpace c \<or> isLineTerminator c)"

definition trim :: "jsstring \<Rightarrow> jsstring" where
  "trim s = rev (dropWhile isSpace (rev (dropWhile isSpace s)))"

text \<open>\<open>s.endsWith('>')\<close> and \<open>s.slice(0, -1)\<close>, as \<open>terminateAndResolve\<close> uses them.\<close>

definition endsWithGT :: "jsstring \<Rightarrow> bool" where
  "endsWithGT s = (s \<noteq> [] \<and> last s = GT)"

definition stripPrompt :: "jsstring \<Rightarrow> jsstring" where
  "stripPrompt finalResponse = (if endsWithGT finalResponse then butlast finalResponse else finalResponse)"

section \<open>The end-of-turn pattern\<close>

text \<open>
  \<open>/^\u{001B}.*\n>\s?/mu.test(text)\<close>. The expression has no \<open>g\<close> or \<open>y\<close> flag, so
  \<open>test\<close> keeps no position between calls and tries every start index. With the \<open>m\<close>
  flag \<open>^\<close> holds at index 0 and after every LineTerminator; without the \<open>s\<close> flag \<open>.\<close>
  takes any character but a LineTerminator (a surrogate pair, one character under \<open>u\<close>,
  is two code units of which neither is a LineTerminator).

  \<open>matchOptSpace\<close> is \<open>\s?\<close> at the head of the input, \<open>matchTail\<close> is \<open>\n>\s?\<close>,
  \<open>matchBody\<close> is \<open>.*\n>\s?\<close> (the star either stops here or takes one more
  character), and \<open>matchFrom\<close> tries the whole pattern at the current index and then at
  the following ones; its flag says whether \<open>^\<close> holds at the current index.
\<close>

definition matchOptSpace :: "jsstring \<Rightarrow> bool" where
  "matchOptSpace cs = (case cs of [] \<Rightarrow> True | c # _ \<Rightarrow> isSpace c \<or> True)"

definition matchTail :: "jsstring \<Rightarrow> bool" where
  "matchTail cs =
     (case cs of
        c # d # rest \<Rightarrow> c = LF \<and> d = GT \<and> matchOptSpace rest
      | _ \<Rightarrow> False)"

fun matchBody :: "jsstring \<Rightarrow> bool" where
  "matchBody [] = False"
| "matchBody (c # cs) = (matchTail (c # cs) \<or> (\<not> isLineTerminator c \<and> matchBody cs))"

fun matchFrom :: "bool \<Rightarrow> jsstring \<Rightarrow> bool" where
  "matchFrom lineStart [] = False"
| "matchFrom lineStart (c # cs) =
     ((lineStart \<and> c = ESC \<and> matchBody cs) \<or> matchFrom (isLineTerminator c) cs)"

definition endOfTurn :: "jsstring \<Rightarrow> bool" where
  "endOfTurn text = matchFrom True text"

section \<open>Errors and promises\<close>

text \<open>
  Every failure of the source is a plain \<open>Error\<close> with a message; the constructors name
  the places that raise one. \<open>RuntimeError\<close> is an error object handed over by the
  runtime (a stream, the file system, the HTTP client, \<open>exec\<close>).
\<close>

datatype error =
    UnsupportedModel jsstring
  | UnsupportedPlatform jsstring
  | NotInitialized
  | RuntimeError jsstring

datatype 'a promise = Pending | Fulfilled 'a | Rejected error

text \<open>\<open>resolve\<close> and \<open>reject\<close> of a promise act once: a settled promise stays as it is.\<close>

definition settle :: "'a promise \<Rightarrow> 'a promise \<Rightarrow> 'a promise" where
  "settle outcome p = (case p of Pending \<Rightarrow> outcome | _ \<Rightarrow> p)"

text \<open>A synchronous call either throws or returns.\<close>

datatype 'a completion = Throws error | Returns 'a

section \<open>One prompt call\<close>

text \<open>
  The closure that \<open>prompt\<close> builds inside \<open>new Promise\<close>: the accumulator \<open>response\<close>,
  the pending timer of \<open>timeoutId\<close> (its deadline in milliseconds; \<open>None\<close> when no timer
  is pending, which is all \<open>clearTimeout\<close> on a stale id can tell), whether the two
  listeners are attached to \<open>bot.stdout\<close>, and the promise returned to the caller.
\<close>

record prompt_call =
  response :: jsstring
  timer :: "nat option"
  dataListener :: bool
  errorListener :: bool
  reply :: "jsstring promise"

definition newCall :: prompt_call where
  "newCall = \<lparr>response = [], timer = None, dataListener = True, errorListener = True,
              reply = Pending\<rparr>"

definition terminateAndResolve :: "jsstring \<Rightarrow> prompt_call \<Rightarrow> prompt_call" where
  "terminateAndResolve finalResponse st =
     st\<lparr>dataListener := False, errorListener := False,
        reply := settle (Fulfilled (stripPrompt finalResponse)) (reply st)\<rparr>"

definition onStdoutError :: "error \<Rightarrow> prompt_call \<Rightarrow> prompt_call" where
  "onStdoutError err st =
     st\<lparr>dataListener := False, errorListener := False,
        reply := settle (Rejected err) (reply st)\<rparr>"

text \<open>
  \<open>onStdoutData\<close> at clock time \<open>now\<close>: the pending timer is cleared, then either the
  call is resolved with the accumulator or a timer is armed 4000 ms ahead, and only
  then is the chunk appended.
\<close>

definition onStdoutData :: "nat \<Rightarrow> jsstring \<Rightarrow> prompt_call \<Rightarrow> prompt_call" where
  "onStdoutData now text st =
     (let st1 = st\<lparr>timer := None\<rparr>;
          st2 = (if endOfTurn text then terminateAndResolve (response st1) st1
                 else st1\<lparr>timer := Some (now + 4000)\<rparr>)
      in st2\<lparr>response := response st2 @ text\<rparr>)"

text \<open>The callback given to \<open>setTimeout\<close>; it reads \<open>response\<close> when it runs.\<close>

definition onTimeout :: "prompt_call \<Rightarrow> prompt_call" where
  "onTimeout st = terminateAndResolve (response st) st"

subsection \<open>The event loop seen by one call\<close>

text \<open>
  Events of \<open>bot.stdout\<close>, each with its arrival time in milliseconds. An emitted
  event runs a listener only while it is attached. A timer runs its callback once its
  deadline is reached: \<open>fireDue\<close> is the timers phase of the loop at clock time \<open>now\<close>,
  and it precedes the delivery of a stream event of the same iteration.
\<close>

datatype event = Data jsstring | StreamError error

definition fireDue :: "nat \<Rightarrow> prompt_call \<Rightarrow> prompt_call" where
  "fireDue now st =
     (case timer st of
        None \<Rightarrow> st
      | Some deadline \<Rightarrow> if deadline \<le> now then onTimeout (st\<lparr>timer := None\<rparr>) else st)"

definition emit :: "nat \<Rightarrow> event \<Rightarrow> prompt_call \<Rightarrow> prompt_call" where
  "emit now ev st =
     (case ev of
        Data text \<Rightarrow> if dataListener st then onStdoutData now text st else st
      | StreamError err \<Rightarrow> if errorListener st then onStdoutError err st else st)"

fun run :: "(nat \<times> event) list \<Rightarrow> prompt_call \<Rightarrow> prompt_call" where
  "run [] st = st"
| "run ((t, ev) # evs) st = run evs (emit t ev (fireDue t st))"

text \<open>The call as it stands at clock time \<open>T\<close>, after the events that arrived up to \<open>T\<close>.\<close>

definition stateAt :: "nat \<Rightarrow> (nat \<times> event) list \<Rightarrow> prompt_call \<Rightarrow> prompt_call" where
  "stateAt T evs st = fireDue T (run (takeWhile (\<lambda>(t, ev). t \<le> T) evs) st)"

section \<open>The world outside the controller\<close>

text \<open>
  What the code reads from and acts on: the host (\<open>os.homedir()\<close>, \<open>os.platform()\<close>,
  the outcome of \<open>exec('uname -m')\<close>), the remote servers (\<open>axios.get\<close> either rejects
  or hands over a stream with the body), the file system, and the child processes made by
  \<open>spawn\<close>. \<open>trace\<close> records every request and every change the code makes, in order.
  A file-system call with a callback is queued in \<open>pending\<close>: it runs, and calls back,
  after the code that made it has gone on. \<open>uncaught\<close> collects what is thrown where no
  caller can catch it.
\<close>

type_synonym bytes = "8 word list"

record fsfile =
  content :: bytes
  mode :: nat

record child =
  command :: jsstring
  args :: "jsstring list"
  stdinWritten :: "jsstring list"
  killed :: bool

datatype fsop = OpMkdir jsstring | OpWrite jsstring | OpChmod jsstring

datatype io =
    Exec jsstring
  | HttpGet jsstring
  | Mkdir jsstring
  | CreateWriteStream jsstring
  | Chmod jsstring nat
  | ConsoleLog jsstring
  | Spawn nat jsstring "jsstring list"
  | Kill nat
  | StdinWrite nat jsstring

datatype task = MkdirTask jsstring | ChmodTask jsstring nat

record world =
  homedir :: jsstring
  platform :: jsstring
  unameOutput :: "error + jsstring"
  remote :: "jsstring \<Rightarrow> error + bytes"
  fsFailure :: "fsop \<Rightarrow> error option"
  createMode :: nat
  files :: "jsstring \<Rightarrow> fsfile option"
  children :: "child list"
  trace :: "io list"
  pending :: "task list"
  uncaught :: "error list"

definition logIO :: "io \<Rightarrow> world \<Rightarrow> world" where
  "logIO x w = w\<lparr>trace := trace w @ [x]\<rparr>"

definition existsSync :: "world \<Rightarrow> jsstring \<Rightarrow> bool" where
  "existsSync w path = (files w path \<noteq> None)"

definition enqueue :: "task \<Rightarrow> world \<Rightarrow> world" where
  "enqueue t w = w\<lparr>pending := pending w @ [t]\<rparr>"

text \<open>
  A queued call runs and then its callback, which in both places of the source is
  \<open>(err) => { if (err) throw err }\<close>: thrown from a callback of the event loop, the error
  reaches no promise.
\<close>

fun runTask :: "task \<Rightarrow> world \<Rightarrow> world" where
  "runTask (MkdirTask path) w =
     (let w1 = logIO (Mkdir path) w
      in case fsFailure w (OpMkdir path) of
           Some err \<Rightarrow> w1\<lparr>uncaught := uncaught w1 @ [err]\<rparr>
         | None \<Rightarrow> w1)"
| "runTask (ChmodTask path m) w =
     (let w1 = logIO (Chmod path m) w
      in case fsFailure w (OpChmod path) of
           Some err \<Rightarrow> w1\<lparr>uncaught := uncaught w1 @ [err]\<rparr>
         | None \<Rightarrow>
             (case files w1 path of
                None \<Rightarrow> w1
              | Some f \<Rightarrow> w1\<lparr>files := (files w1)(path \<mapsto> f\<lparr>mode := m\<rparr>)\<rparr>))"

definition runPending :: "world \<Rightarrow> world" where
  "runPending w = foldl (\<lambda>w' t. runTask t w') (w\<lparr>pending := []\<rparr>) (pending w)"

section \<open>The controller\<close>

definition availableModels :: "jsstring list" where
  "availableModels =
     [str ''gpt4all-lora-quantized'', str ''gpt4all-lora-unfiltered-quantized'']"

text \<open>
  The class \<open>GPT4All\<close>. \<open>bot\<close> is the handle of the child process (its index in
  \<open>children\<close>) or \<open>null\<close>. \<open>decoderConfig\<close> is held as \<open>Object.entries\<close> lists it; the
  type of its values is declared in a file that is not part of the sources, so it is
  the parameter \<open>'v\<close>, and their \<open>toString\<close> is a parameter of \<open>open\<close>.
\<close>

record 'v gpt4all =
  bot :: "nat option"
  model :: jsstring
  decoderConfig :: "(jsstring \<times> 'v) list"
  executablePath :: jsstring
  modelPath :: jsstring

fun join :: "jsstring \<Rightarrow> jsstring list \<Rightarrow> jsstring" where
  "join sep [] = []"
| "join sep [x] = x"
| "join sep (x # y # ys) = x @ sep @ join sep (y # ys)"

fun errorMessage :: "error \<Rightarrow> jsstring" where
  "errorMessage (UnsupportedModel m) =
     str ''Model '' @ m @ str '' is not supported. Current models supported are:'' @ [LF] @
     join (str '','' @ [LF]) availableModels"
| "errorMessage (UnsupportedPlatform p) =
     str ''Your platform is not supported: '' @ p @
     str ''. Current binaries supported are for OSX (ARM and Intel), Linux and Windows.''"
| "errorMessage NotInitialized = str ''Bot is not initialized.''"
| "errorMessage (RuntimeError msg) = msg"

text \<open>
  The constructor. It is given the world as every operation is, and hands it back:
  it reads \<open>os.homedir()\<close> and nothing else.
\<close>

definition constructor ::
  "jsstring \<Rightarrow> bool \<Rightarrow> (jsstring \<times> 'v) list \<Rightarrow> world \<Rightarrow> 'v gpt4all completion \<times> world" where
  "constructor model' forceDownload decoderConfig' w =
     (if model' \<notin> set availableModels then (Throws (UnsupportedModel model'), w)
      else (Returns \<lparr>bot = None, model = model', decoderConfig = decoderConfig',
                     executablePath = homedir w @ str ''/.nomic/gpt4all'',
                     modelPath = homedir w @ str ''/.nomic/'' @ model' @ str ''.bin''\<rparr>, w))"

section \<open>Fetching the two artifacts\<close>

text \<open>
  \<open>downloadFile\<close>: the request, then \<open>mkdir\<close> with its callback, then the write stream
  on which the body is piped; the promise follows the writer's \<open>finish\<close> and \<open>error\<close>
  events. The progress bar only writes to the console and is left out; a response
  that breaks off midway is not part of this model.
\<close>

definition downloadFile :: "jsstring \<Rightarrow> jsstring \<Rightarrow> world \<Rightarrow> unit promise \<times> world" where
  "downloadFile url destination w =
     (let w1 = logIO (HttpGet url) w
      in case remote w url of
           Inl err \<Rightarrow> (Rejected err, w1)
         | Inr body \<Rightarrow>
             (let w2 = enqueue (MkdirTask (homedir w @ str ''/.nomic/'')) w1;
                  w3 = logIO (CreateWriteStream destination) w2
              in case fsFailure w (OpWrite destination) of
                   Some err \<Rightarrow> (Rejected err, w3)
                 | None \<Rightarrow>
                     (Fulfilled (),
                      w3\<lparr>files := (files w3)(destination \<mapsto>
                           \<lparr>content = body,
                            mode = (case files w3 destination of
                                      None \<Rightarrow> createMode w | Some f \<Rightarrow> mode f)\<rparr>)\<rparr>)))"

definition upstreamM1 :: jsstring where
  "upstreamM1 = str ''https://github.com/nomic-ai/gpt4all/blob/main/chat/gpt4all-lora-quantized-OSX-m1?raw=true''"

definition upstreamIntel :: jsstring where
  "upstreamIntel = str ''https://github.com/nomic-ai/gpt4all/blob/main/chat/gpt4all-lora-quantized-OSX-intel?raw=true''"

definition upstreamLinux :: jsstring where
  "upstreamLinux = str ''https://github.com/nomic-ai/gpt4all/blob/main/chat/gpt4all-lora-quantized-linux-x86?raw=true''"

definition upstreamWin :: jsstring where
  "upstreamWin = str ''https://github.com/nomic-ai/gpt4all/blob/main/chat/gpt4all-lora-quantized-win64.exe?raw=true''"

text \<open>The first half of \<open>downloadExecutable\<close>: the choice of \<open>upstream\<close>, or the throw.\<close>

definition chooseUpstream :: "world \<Rightarrow> (error + jsstring) \<times> world" where
  "chooseUpstream w =
     (if platform w = str ''darwin'' then
        (let w1 = logIO (Exec (str ''uname -m'')) w
         in case unameOutput w of
              Inl err \<Rightarrow> (Inl err, w1)
            | Inr stdout \<Rightarrow>
                (Inr (if trim stdout = str ''arm64'' then upstreamM1 else upstreamIntel), w1))
      else if platform w = str ''linux'' then (Inr upstreamLinux, w)
      else if platform w = str ''win32'' then (Inr upstreamWin, w)
      else (Inl (UnsupportedPlatform (platform w)), w))"

text \<open>The octal literal \<open>0o755\<close>: \<open>rwxr-xr-x\<close>.\<close>

definition mode755 :: nat where
  "mode755 = 7 * 8 ^ 2 + 5 * 8 + 5"

text \<open>
  \<open>chmod\<close> is called with a callback and is not awaited: the function logs and returns
  while the call is still queued.
\<close>

definition downloadExecutable :: "'v gpt4all \<Rightarrow> world \<Rightarrow> unit promise \<times> world" where
  "downloadExecutable c w =
     (case chooseUpstream w of
        (Inl err, w1) \<Rightarrow> (Rejected err, w1)
      | (Inr upstream, w1) \<Rightarrow>
          (case downloadFile upstream (executablePath c) w1 of
             (Fulfilled u, w2) \<Rightarrow>
               (Fulfilled (),
                logIO (ConsoleLog (str ''File downloaded successfully to '' @ executablePath c))
                  (enqueue (ChmodTask (executablePath c) mode755) w2))
           | (p, w2) \<Rightarrow> (p, w2)))"

definition modelUrl :: "'v gpt4all \<Rightarrow> jsstring" where
  "modelUrl c = str ''https://the-eye.eu/public/AI/models/nomic-ai/gpt4all/'' @ model c @ str ''.bin''"

definition downloadModel :: "'v gpt4all \<Rightarrow> world \<Rightarrow> unit promise \<times> world" where
  "downloadModel c w =
     (case downloadFile (modelUrl c) (modelPath c) w of
        (Fulfilled u, w1) \<Rightarrow>
          (Fulfilled (),
           logIO (ConsoleLog (str ''File downloaded successfully to '' @ modelPath c)) w1)
      | (p, w1) \<Rightarrow> (p, w1))"

text \<open>
  \<open>init\<close>. \<open>downloadPromises\<close> is the array it fills: which of the two downloads it
  starts. Both tests read the file system as \<open>init\<close> finds it, since a download writes
  no file before its first \<open>await\<close>. The bodies of the downloads are then run one after
  the other; their interleaving is not modelled.
\<close>

datatype download = Executable | Weights

definition downloadPromises :: "bool \<Rightarrow> 'v gpt4all \<Rightarrow> world \<Rightarrow> download list" where
  "downloadPromises forceDownload c w =
     (if forceDownload \<or> \<not> existsSync w (executablePath c) then [Executable] else []) @
     (if forceDownload \<or> \<not> existsSync w (modelPath c) then [Weights] else [])"

fun startDownload :: "download \<Rightarrow> 'v gpt4all \<Rightarrow> world \<Rightarrow> unit promise \<times> world" where
  "startDownload Executable c w = downloadExecutable c w"
| "startDownload Weights c w = downloadModel c w"

fun runDownloads :: "download list \<Rightarrow> 'v gpt4all \<Rightarrow> world \<Rightarrow> unit promise list \<times> world" where
  "runDownloads [] c w = ([], w)"
| "runDownloads (d # ds) c w =
     (let (p, w1) = startDownload d c w;
          (ps, w2) = runDownloads ds c w1
      in (p # ps, w2))"

text \<open>\<open>Promise.all\<close>: the first rejection, or all the values.\<close>

fun promiseAll :: "'a promise list \<Rightarrow> 'a list promise" where
  "promiseAll [] = Fulfilled []"
| "promiseAll (p # ps) =
     (case p of
        Rejected err \<Rightarrow> Rejected err
      | Pending \<Rightarrow> (case promiseAll ps of Rejected err \<Rightarrow> Rejected err | _ \<Rightarrow> Pending)
      | Fulfilled v \<Rightarrow>
          (case promiseAll ps of
             Fulfilled vs \<Rightarrow> Fulfilled (v # vs)
           | Rejected err \<Rightarrow> Rejected err
           | Pending \<Rightarrow> Pending))"

definition init :: "bool \<Rightarrow> 'v gpt4all \<Rightarrow> world \<Rightarrow> unit list promise \<times> world" where
  "init forceDownload c w =
     (let (ps, w1) = runDownloads (downloadPromises forceDownload c w) c w
      in (promiseAll ps, w1))"

text \<open>The network requests that a stretch of the trace holds.\<close>

fun requests :: "io list \<Rightarrow> jsstring list" where
  "requests [] = []"
| "requests (HttpGet url # xs) = url # requests xs"
| "requests (x # xs) = requests xs"

section \<open>The session\<close>

definition adjust :: "nat \<Rightarrow> ('a \<Rightarrow> 'a) \<Rightarrow> 'a list \<Rightarrow> 'a list" where
  "adjust i f xs = (if i < length xs then xs[i := f (xs ! i)] else xs)"

text \<open>\<open>bot.kill()\<close>: the signal is sent, and the call returns at once.\<close>

definition kill :: "nat \<Rightarrow> world \<Rightarrow> world" where
  "kill p w = logIO (Kill p) (w\<lparr>children := adjust p (\<lambda>ch. ch\<lparr>killed := True\<rparr>) (children w)\<rparr>)"

definition close :: "'v gpt4all \<Rightarrow> world \<Rightarrow> 'v gpt4all \<times> world" where
  "close c w =
     (case bot c of
        None \<Rightarrow> (c, w)
      | Some p \<Rightarrow> (c\<lparr>bot := None\<rparr>, kill p w))"

text \<open>The list that the loop of \<open>open\<close> builds, one \<open>push\<close> of two strings per entry.\<close>

definition spawnArgs :: "('v \<Rightarrow> jsstring) \<Rightarrow> 'v gpt4all \<Rightarrow> jsstring list" where
  "spawnArgs toString c =
     foldl (\<lambda>acc (key, val). acc @ [str ''--'' @ key, toString val])
       [executablePath c, str ''--model'', modelPath c] (decoderConfig c)"

definition spawn :: "jsstring \<Rightarrow> jsstring list \<Rightarrow> world \<Rightarrow> nat \<times> world" where
  "spawn cmd argv w =
     (let p = length (children w)
      in (p, logIO (Spawn p cmd argv)
               (w\<lparr>children := children w @
                     [\<lparr>command = cmd, args = argv, stdinWritten = [], killed = False\<rparr>]\<rparr>)))"

text \<open>
  \<open>open\<close> up to its \<open>await\<close>: the old process is closed, the new one spawned with
  \<open>spawnArgs[0]\<close> and \<open>spawnArgs.slice(1)\<close>, and the handle stored.
\<close>

definition openStart :: "('v \<Rightarrow> jsstring) \<Rightarrow> 'v gpt4all \<Rightarrow> world \<Rightarrow> 'v gpt4all \<times> world" where
  "openStart toString c w =
     (let (c1, w1) = (if bot c \<noteq> None then close c w else (c, w));
          sa = spawnArgs toString c1;
          (p, w2) = spawn (hd sa) (tl sa) w1
      in (c1\<lparr>bot := Some p\<rparr>, w2))"

text \<open>
  The promise that \<open>open\<close> awaits is resolved by the first chunk of the new process's
  output that includes \<open>>\<close>; nothing rejects it. \<open>chunks\<close> is what that output delivers.
\<close>

definition readiness :: "jsstring list \<Rightarrow> unit promise" where
  "readiness chunks = (if list_ex (\<lambda>data. GT \<in> set data) chunks then Fulfilled () else Pending)"

definition "open" :: "('v \<Rightarrow> jsstring) \<Rightarrow> jsstring list \<Rightarrow> 'v gpt4all \<Rightarrow> world \<Rightarrow> unit promise \<times> 'v gpt4all \<times> world" where
  "open toString chunks c w =
     (let (c1, w1) = openStart toString c w in (readiness chunks, c1, w1))"

text \<open>
  \<open>prompt\<close> up to \<open>new Promise\<close>: the throw, or the write to the input stream and the
  fresh call with both listeners attached.
\<close>

definition stdinWrite :: "nat \<Rightarrow> jsstring \<Rightarrow> world \<Rightarrow> world" where
  "stdinWrite p data w =
     logIO (StdinWrite p data)
       (w\<lparr>children := adjust p (\<lambda>ch. ch\<lparr>stdinWritten := stdinWritten ch @ [data]\<rparr>) (children w)\<rparr>)"

definition prompt :: "jsstring \<Rightarrow> 'v gpt4all \<Rightarrow> world \<Rightarrow> prompt_call completion \<times> world" where
  "prompt text c w =
     (case bot c of
        None \<Rightarrow> (Throws NotInitialized, w)
      | Some p \<Rightarrow> (Returns newCall, stdinWrite p (text @ [LF]) w))"

text \<open>
  The stretch of the trace that an operation adds, given the world before and after.
\<close>

definition newTrace :: "world \<Rightarrow> world \<Rightarrow> io list" where
  "newTrace w w' = drop (length (trace w)) (trace w')"

subsection \<open>Callers\<close>

text \<open>
  The handles on which \<open>kill\<close> has not been called, and the invariant of the
  controller: they are exactly the handle it holds, if it holds one. It speaks about a
  world whose children were all spawned by this controller.
\<close>

definition liveChildren :: "world \<Rightarrow> nat list" where
  "liveChildren w = filter (\<lambda>p. \<not> killed (children w ! p)) [0..<length (children w)]"

definition oneSession :: "'v gpt4all \<Rightarrow> world \<Rightarrow> bool" where
  "oneSession c w = (liveChildren w = (case bot c of None \<Rightarrow> [] | Some p \<Rightarrow> [p]))"

text \<open>
  A caller is a sequence of calls of the public operations on one controller; what
  the calls return is dropped, the controller and the world are carried on.
\<close>

datatype call = CallInit bool | CallOpen "jsstring list" | CallClose | CallPrompt jsstring

fun perform :: "('v \<Rightarrow> jsstring) \<Rightarrow> call \<Rightarrow> 'v gpt4all \<times> world \<Rightarrow> 'v gpt4all \<times> world" where
  "perform toString (CallInit forceDownload) (c, w) = (c, snd (init forceDownload c w))"
| "perform toString (CallOpen chunks) (c, w) = snd (open toString chunks c w)"
| "perform toString CallClose (c, w) = close c w"
| "perform toString (CallPrompt input) (c, w) = (c, snd (prompt input c w))"

fun performAll :: "('v \<Rightarrow> jsstring) \<Rightarrow> call list \<Rightarrow> 'v gpt4all \<times> world \<Rightarrow> 'v gpt4all \<times> world" where
  "performAll toString [] s = s"
| "performAll toString (x # xs) s = performAll toString xs (perform toString x s)"

section \<open>Concrete hosts and controllers\<close>

text \<open>
  A Linux host with nothing downloaded and no child process, the same host with both
  artifacts in place, the same host on which \<open>chmod\<close> of the executable fails, and a
  controller as the constructor builds it there, with two decoder options whose values
  are strings.
\<close>

definition exampleHost :: world where
  "exampleHost =
     \<lparr>homedir = str ''/home/user'', platform = str ''linux'',
      unameOutput = Inr (str ''x86_64'' @ [LF]),
      remote = (\<lambda>url. Inr [0x7F, 0x45, 0x4C, 0x46]),
      fsFailure = (\<lambda>op. None), createMode = 6 * 8 ^ 2 + 4 * 8 + 4,
      files = Map.empty, children = [], trace = [], pending = [], uncaught = []\<rparr>"

definition exampleController :: "jsstring gpt4all" where
  "exampleController =
     \<lparr>bot = None, model = str ''gpt4all-lora-quantized'',
      decoderConfig = [(str ''temp'', str ''0.9''), (str ''top_k'', str ''40'')],
      executablePath = str ''/home/user/.nomic/gpt4all'',
      modelPath = str ''/home/user/.nomic/gpt4all-lora-quantized.bin''\<rparr>"

definition provisionedHost :: world where
  "provisionedHost =
     exampleHost\<lparr>files :=
       [str ''/home/user/.nomic/gpt4all'' \<mapsto> \<lparr>content = [0x7F, 0x45, 0x4C, 0x46], mode = mode755\<rparr>,
        str ''/home/user/.nomic/gpt4all-lora-quantized.bin'' \<mapsto>
          \<lparr>content = [0x67, 0x67, 0x6D, 0x6C], mode = 6 * 8 ^ 2 + 4 * 8 + 4\<rparr>]\<rparr>"

definition chmodFailingHost :: world where
  "chmodFailingHost =
     exampleHost\<lparr>fsFailure :=
       (\<lambda>op. if op = OpChmod (str ''/home/user/.nomic/gpt4all'')
             then Some (RuntimeError (str ''EPERM: operation not permitted, chmod''))
             else None)\<rparr>"

section \<open>Properties of a prompt call\<close>

lemma settle_Pending: "settle outcome Pending = outcome"
  by (simp add: settle_def)

lemma emit_endOfTurn:
  assumes "dataListener st" and "endOfTurn chunk"
  shows "emit now (Data chunk) st =
           st\<lparr>timer := None, dataListener := False, errorListener := False,
              reply := settle (Fulfilled (stripPrompt (response st))) (reply st),
              response := response st @ chunk\<rparr>"
  using assms by (simp add: emit_def onStdoutData_def terminateAndResolve_def Let_def)

lemma emit_other:
  assumes "dataListener st" and "\<not> endOfTurn chunk"
  shows "emit now (Data chunk) st = st\<lparr>timer := Some (now + 4000), response := response st @ chunk\<rparr>"
  using assms by (simp add: emit_def onStdoutData_def Let_def)

lemma fireDue_early:
  assumes "timer st = Some d" and "now < d"
  shows "fireDue now st = st"
  using assms by (simp add: fireDue_def)

lemma fireDue_None: "timer st = None \<Longrightarrow> fireDue now st = st"
  by (simp add: fireDue_def)

lemma fireDue_late:
  assumes "timer st = Some d" and "d \<le> now"
  shows "fireDue now st =
           st\<lparr>timer := None, dataListener := False, errorListener := False,
              reply := settle (Fulfilled (stripPrompt (response st))) (reply st)\<rparr>"
  using assms by (simp add: fireDue_def onTimeout_def terminateAndResolve_def)

lemma stateAt_single:
  "stateAt T [(start, Data chunk)] st =
     (if start \<le> T then fireDue T (emit start (Data chunk) (fireDue start st)) else fireDue T st)"
  by (simp add: stateAt_def)

text \<open>While the data listener is attached, the promise of the call is pending.\<close>

lemma listening_pending_run:
  assumes "dataListener st \<longrightarrow> reply st = Pending"
  shows "dataListener (run evs st) \<longrightarrow> reply (run evs st) = Pending"
  using assms
proof (induction evs arbitrary: st)
  case Nil
  then show ?case by simp
next
  case (Cons x evs)
  obtain t ev where x: "x = (t, ev)" by (cases x)
  have 1: "dataListener (fireDue t st) \<longrightarrow> reply (fireDue t st) = Pending"
    using Cons.prems
    by (auto simp: fireDue_def onTimeout_def terminateAndResolve_def split: option.splits)
  have 2: "dataListener (emit t ev (fireDue t st)) \<longrightarrow> reply (emit t ev (fireDue t st)) = Pending"
    using 1
    by (cases ev)
      (auto simp: emit_def onStdoutData_def onStdoutError_def terminateAndResolve_def Let_def)
  show ?case
    using Cons.IH [OF 2] by (simp add: x)
qed

lemma listening_pending:
  "dataListener (run evs newCall) \<Longrightarrow> reply (run evs newCall) = Pending"
  using listening_pending_run [of newCall evs] by (simp add: newCall_def)

subsection \<open>The chunks of the two scenarios\<close>

lemma not_eot_hello: "\<not> endOfTurn (str ''hello '')"
  by (simp add: endOfTurn_def str_def ESC_def)

lemma not_eot_world: "\<not> endOfTurn (str ''world'')"
  by (simp add: endOfTurn_def str_def ESC_def)

lemma not_eot_partial: "\<not> endOfTurn (str ''partial'')"
  by (simp add: endOfTurn_def str_def ESC_def)

lemma not_eot_tag: "\<not> endOfTurn (str ''<b>'')"
  by (simp add: endOfTurn_def str_def ESC_def)

lemma eot_example: "endOfTurn (ESC # str ''...'' @ [LF, GT, 0x20])"
  by (simp add: endOfTurn_def str_def ESC_def LF_def GT_def matchTail_def
      matchOptSpace_def isLineTerminator_def)

lemma eot_bare: "endOfTurn [ESC, LF, GT]"
  by (simp add: endOfTurn_def matchTail_def matchOptSpace_def)

lemma strip_hello_world: "stripPrompt (str ''hello '' @ str ''world'') = str ''hello world''"
  by (simp add: stripPrompt_def endsWithGT_def str_def GT_def)

lemma strip_partial: "stripPrompt (str ''partial'') = str ''partial''"
  by (simp add: stripPrompt_def endsWithGT_def str_def GT_def)

lemma strip_tag: "stripPrompt (str ''<b>'') = str ''<b''"
  by (simp add: stripPrompt_def endsWithGT_def str_def GT_def)

subsection \<open>Reply on an end-of-turn chunk\<close>

text \<open>
  C1. With a live session, a prompt call whose output delivers \<open>"hello "\<close>, then
  \<open>"world"\<close>, then any chunk that the end-of-turn pattern matches, resolves with
  exactly \<open>"hello world"\<close>: the matching chunk is not part of the reply and no
  trailing \<open>>\<close> is left. The three chunks reach the call, that is, each arrives
  less than 4000 ms after the one before, so that the idle timer has not fired in
  between.
\<close>

theorem prompt_hello_world:
  assumes live: "bot c = Some p"
    and eot: "endOfTurn endChunk"
    and gap1: "t2 < t1 + 4000" and gap2: "t3 < t2 + 4000"
  shows "case fst (prompt input c w) of
           Throws err \<Rightarrow> False
         | Returns call \<Rightarrow>
             reply (run [(t1, Data (str ''hello '')), (t2, Data (str ''world'')), (t3, Data endChunk)] call)
               = Fulfilled (str ''hello world'')"
proof -
  define s1 where "s1 = emit t1 (Data (str ''hello '')) (fireDue t1 newCall)"
  define s2 where "s2 = emit t2 (Data (str ''world'')) (fireDue t2 s1)"
  define s3 where "s3 = emit t3 (Data endChunk) (fireDue t3 s2)"
  have 1: "s1 = newCall\<lparr>timer := Some (t1 + 4000), response := str ''hello ''\<rparr>"
    unfolding s1_def by (simp add: fireDue_None emit_other not_eot_hello newCall_def)
  have 2: "s2 = newCall\<lparr>timer := Some (t2 + 4000), response := str ''hello '' @ str ''world''\<rparr>"
    unfolding s2_def 1 using gap1
    by (simp add: fireDue_early emit_other not_eot_world newCall_def)
  have 3: "reply s3 = Fulfilled (stripPrompt (str ''hello '' @ str ''world''))"
    unfolding s3_def 2 using gap2 eot
    by (simp add: fireDue_early emit_endOfTurn newCall_def settle_Pending)
  have "fst (prompt input c w) = Returns newCall"
    using live by (simp add: prompt_def)
  moreover have "reply (run [(t1, Data (str ''hello '')), (t2, Data (str ''world'')), (t3, Data endChunk)] newCall) = reply s3"
    by (simp add: s1_def s2_def s3_def)
  ultimately show ?thesis
    by (simp add: 3 strip_hello_world)
qed

text \<open>The scenario of the specification, with the chunks 10 ms apart.\<close>

theorem prompt_hello_world_witness:
  "bot (exampleController\<lparr>bot := Some 0\<rparr>) = Some 0 \<and>
   endOfTurn (ESC # str ''...'' @ [LF, GT, 0x20]) \<and>
   (10::nat) < 0 + 4000 \<and> (20::nat) < 10 + 4000 \<and>
   (case fst (prompt (str ''hi'') (exampleController\<lparr>bot := Some 0\<rparr>) exampleHost) of
      Throws err \<Rightarrow> False
    | Returns call \<Rightarrow>
        reply (run [(0, Data (str ''hello '')), (10, Data (str ''world'')),
                    (20, Data (ESC # str ''...'' @ [LF, GT, 0x20]))] call)
          = Fulfilled (str ''hello world''))"
proof -
  have a: "bot (exampleController\<lparr>bot := Some 0\<rparr>) = Some 0" by simp
  have c: "(10::nat) < 0 + 4000" by simp
  have d: "(20::nat) < 10 + 4000" by simp
  from prompt_hello_world [where input = "str ''hi''" and w = exampleHost, OF a eot_example c d]
  show ?thesis using a eot_example by simp
qed

subsection \<open>Reply on silence\<close>

text \<open>
  C2. With a live session, a prompt call whose output delivers the one chunk
  \<open>"partial"\<close> at time \<open>start\<close> and nothing after it is pending at every time before
  \<open>start + 4000\<close>, with its timer armed for \<open>start + 4000\<close>, and is resolved with
  exactly \<open>"partial"\<close> from \<open>start + 4000\<close> on, when the timer has fired. Every chunk
  that the end-of-turn pattern does not match, handled at time \<open>now\<close> by a call that
  still listens, leaves the timer armed for \<open>now + 4000\<close>, whatever timer was pending.
  Time is the clock of the event loop in milliseconds, and a timer fires when its
  deadline is reached.
\<close>

theorem prompt_partial_idle:
  assumes live: "bot c = Some p"
  shows "case fst (prompt input c w) of
           Throws err \<Rightarrow> False
         | Returns call \<Rightarrow>
             (\<forall>T. reply (stateAt T [(start, Data (str ''partial''))] call) =
                    (if start + 4000 \<le> T then Fulfilled (str ''partial'') else Pending)) \<and>
             (\<forall>T. start \<le> T \<and> T < start + 4000 \<longrightarrow>
                    timer (stateAt T [(start, Data (str ''partial''))] call) = Some (start + 4000)) \<and>
             (\<forall>now chunk st. dataListener st \<and> \<not> endOfTurn chunk \<longrightarrow>
                    timer (emit now (Data chunk) st) = Some (now + 4000))"
proof -
  define s1 where "s1 = emit start (Data (str ''partial'')) (fireDue start newCall)"
  have s1: "s1 = newCall\<lparr>timer := Some (start + 4000), response := str ''partial''\<rparr>"
    unfolding s1_def by (simp add: fireDue_None emit_other not_eot_partial newCall_def)
  have before: "reply (stateAt T [(start, Data (str ''partial''))] newCall) = Pending
      \<and> (start \<le> T \<longrightarrow> timer (stateAt T [(start, Data (str ''partial''))] newCall) = Some (start + 4000))"
    if "T < start + 4000" for T
  proof (cases "start \<le> T")
    case True
    then have "stateAt T [(start, Data (str ''partial''))] newCall = fireDue T s1"
      by (simp add: stateAt_single s1_def)
    also have "\<dots> = s1"
      using that by (simp add: s1 fireDue_early)
    finally show ?thesis by (simp add: s1 newCall_def)
  next
    case False
    then show ?thesis
      by (simp add: stateAt_single fireDue_None newCall_def)
  qed
  have after: "reply (stateAt T [(start, Data (str ''partial''))] newCall) = Fulfilled (str ''partial'')"
    if "start + 4000 \<le> T" for T
  proof -
    from that have "start \<le> T" by simp
    then have "stateAt T [(start, Data (str ''partial''))] newCall = fireDue T s1"
      by (simp add: stateAt_single s1_def)
    then show ?thesis
      using that by (simp add: s1 fireDue_late newCall_def settle_Pending strip_partial)
  qed
  have rearm: "timer (emit now (Data chunk) st) = Some (now + 4000)"
    if "dataListener st" and "\<not> endOfTurn chunk" for now chunk and st :: prompt_call
    using that by (simp add: emit_other)
  have "fst (prompt input c w) = Returns newCall"
    using live by (simp add: prompt_def)
  then show ?thesis
    using before after rearm by (simp add: not_le)
qed

text \<open>
  The chunk at time 0: pending at 3999, resolved at 4000; a further chunk at time 7
  moves the deadline to 4007.
\<close>

theorem prompt_partial_idle_witness:
  "bot (exampleController\<lparr>bot := Some 0\<rparr>) = Some 0 \<and>
   reply (stateAt 3999 [(0, Data (str ''partial''))] newCall) = Pending \<and>
   timer (stateAt 3999 [(0, Data (str ''partial''))] newCall) = Some 4000 \<and>
   reply (stateAt 4000 [(0, Data (str ''partial''))] newCall) = Fulfilled (str ''partial'') \<and>
   timer (emit 7 (Data (str ''more'')) (stateAt 3999 [(0, Data (str ''partial''))] newCall)) = Some 4007"
proof -
  have a: "bot (exampleController\<lparr>bot := Some 0\<rparr>) = Some 0" by simp
  have p: "fst (prompt (str ''hi'') (exampleController\<lparr>bot := Some 0\<rparr>) exampleHost) = Returns newCall"
    by (simp add: prompt_def)
  have n: "\<not> endOfTurn (str ''more'')"
    by (simp add: endOfTurn_def str_def ESC_def)
  have l: "dataListener (stateAt 3999 [(0, Data (str ''partial''))] newCall)"
    by (simp add: stateAt_single fireDue_def emit_def onStdoutData_def not_eot_partial newCall_def Let_def)
  from prompt_partial_idle [where input = "str ''hi''" and w = exampleHost and start = 0, OF a]
  have "(\<forall>T. reply (stateAt T [(0, Data (str ''partial''))] newCall) =
                    (if 0 + 4000 \<le> T then Fulfilled (str ''partial'') else Pending)) \<and>
             (\<forall>T. 0 \<le> T \<and> T < 0 + 4000 \<longrightarrow>
                    timer (stateAt T [(0, Data (str ''partial''))] newCall) = Some (0 + 4000)) \<and>
             (\<forall>now chunk st. dataListener st \<and> \<not> endOfTurn chunk \<longrightarrow>
                    timer (emit now (Data chunk) st) = Some (now + 4000))"
    by (simp add: p)
  then show ?thesis using a n l by simp
qed

subsection \<open>The matching chunk and the reply\<close>

text \<open>
  C9, as amended. When a chunk that the end-of-turn pattern matches reaches a call
  that still listens, the promise is resolved with the accumulator as it was before
  that chunk, less one trailing \<open>>\<close> if it ends in one; the chunk is appended to the
  accumulator only afterwards and is no part of the reply. Where the accumulator does
  not end in \<open>>\<close>, the reply is the accumulator itself.
\<close>

theorem end_chunk_excluded:
  assumes "dataListener (run evs newCall)" and "endOfTurn chunk"
  shows "reply (emit now (Data chunk) (run evs newCall)) =
           Fulfilled (stripPrompt (response (run evs newCall))) \<and>
         response (emit now (Data chunk) (run evs newCall)) = response (run evs newCall) @ chunk \<and>
         (\<not> endsWithGT (response (run evs newCall)) \<longrightarrow>
            reply (emit now (Data chunk) (run evs newCall)) = Fulfilled (response (run evs newCall)))"
  using assms listening_pending [OF assms(1)]
  by (simp add: emit_endOfTurn settle_Pending stripPrompt_def)

text \<open>After \<open>"hello "\<close> at time 0, the matching chunk at time 10 resolves with \<open>"hello "\<close>.\<close>

theorem end_chunk_excluded_witness:
  "dataListener (run [(0, Data (str ''hello ''))] newCall) \<and>
   endOfTurn [ESC, LF, GT] \<and>
   \<not> endsWithGT (response (run [(0, Data (str ''hello ''))] newCall)) \<and>
   reply (emit 10 (Data [ESC, LF, GT]) (run [(0, Data (str ''hello ''))] newCall)) =
     Fulfilled (str ''hello '') \<and>
   response (emit 10 (Data [ESC, LF, GT]) (run [(0, Data (str ''hello ''))] newCall)) =
     str ''hello '' @ [ESC, LF, GT]"
proof -
  define st where "st = run [(0, Data (str ''hello ''))] newCall"
  have r: "st = newCall\<lparr>timer := Some (0 + 4000), response := str ''hello ''\<rparr>"
    unfolding st_def by (simp add: fireDue_None emit_other not_eot_hello newCall_def)
  have a: "dataListener st"
    unfolding r by (simp add: newCall_def)
  have g: "\<not> endsWithGT (response st)"
    unfolding r by (simp add: endsWithGT_def str_def GT_def)
  have s: "response st = str ''hello ''"
    unfolding r by simp
  have a': "dataListener (run [(0, Data (str ''hello ''))] newCall)"
    using a by (simp only: st_def)
  note end_chunk_excluded [OF a' eot_bare, of 10, folded st_def]
  then show ?thesis
    unfolding st_def [symmetric] using a g s eot_bare by (simp add: stripPrompt_def)
qed

text \<open>
  The claim as it was stated fails where the accumulator ends in \<open>>\<close>: after the
  chunk \<open>"<b>"\<close> the accumulator is \<open>"<b>"\<close>, and the matching chunk resolves the
  call with \<open>"<b"\<close>.
\<close>

theorem end_chunk_counterexample:
  "dataListener (run [(0, Data (str ''<b>''))] newCall) \<and>
   response (run [(0, Data (str ''<b>''))] newCall) = str ''<b>'' \<and>
   endOfTurn [ESC, LF, GT] \<and>
   reply (emit 10 (Data [ESC, LF, GT]) (run [(0, Data (str ''<b>''))] newCall)) =
     Fulfilled (str ''<b'') \<and>
   reply (emit 10 (Data [ESC, LF, GT]) (run [(0, Data (str ''<b>''))] newCall)) \<noteq>
     Fulfilled (response (run [(0, Data (str ''<b>''))] newCall))"
proof -
  define st where "st = run [(0, Data (str ''<b>''))] newCall"
  have r: "st = newCall\<lparr>timer := Some (0 + 4000), response := str ''<b>''\<rparr>"
    unfolding st_def by (simp add: fireDue_None emit_other not_eot_tag newCall_def)
  have a: "dataListener st" and p: "reply st = Pending" and s: "response st = str ''<b>''"
    unfolding r by (simp_all add: newCall_def)
  have e: "reply (emit 10 (Data [ESC, LF, GT]) st) = Fulfilled (str ''<b'')"
    by (simp add: emit_endOfTurn [OF a eot_bare] p s settle_Pending strip_tag)
  have n: "str ''<b'' \<noteq> str ''<b>''"
    by (simp add: str_def)
  show ?thesis
    unfolding st_def [symmetric] using a e n s eot_bare by simp
qed

section \<open>Properties of the constructor\<close>

lemma member_availableModels:
  "m \<in> set availableModels \<longleftrightarrow>
     m = str ''gpt4all-lora-quantized'' \<or> m = str ''gpt4all-lora-unfiltered-quantized''"
  by (auto simp: availableModels_def)

text \<open>
  C4. For each of the two supported model names the constructor returns a controller,
  and for every other string it throws the unsupported-model error, synchronously:
  construction fails if and only if the name is not one of the two.
\<close>

theorem constructor_supported_iff:
  "(m = str ''gpt4all-lora-quantized'' \<or> m = str ''gpt4all-lora-unfiltered-quantized'' \<longrightarrow>
      (\<exists>c. constructor m f d w = (Returns c, w))) \<and>
   (m \<noteq> str ''gpt4all-lora-quantized'' \<and> m \<noteq> str ''gpt4all-lora-unfiltered-quantized'' \<longrightarrow>
      constructor m f d w = (Throws (UnsupportedModel m), w)) \<and>
   ((\<exists>err. fst (constructor m f d w) = Throws err) \<longleftrightarrow>
      \<not> (m = str ''gpt4all-lora-quantized'' \<or> m = str ''gpt4all-lora-unfiltered-quantized''))"
  by (simp add: constructor_def member_availableModels)

text \<open>The second supported name is accepted; the name \<open>gpt4all-j\<close> is refused.\<close>

theorem constructor_supported_iff_witness:
  "(\<exists>c. constructor (str ''gpt4all-lora-unfiltered-quantized'') False ([] :: (jsstring \<times> jsstring) list) exampleHost
           = (Returns c, exampleHost)) \<and>
   str ''gpt4all-j'' \<noteq> str ''gpt4all-lora-quantized'' \<and>
   str ''gpt4all-j'' \<noteq> str ''gpt4all-lora-unfiltered-quantized'' \<and>
   constructor (str ''gpt4all-j'') False ([] :: (jsstring \<times> jsstring) list) exampleHost
     = (Throws (UnsupportedModel (str ''gpt4all-j'')), exampleHost)"
proof -
  have a: "str ''gpt4all-j'' \<noteq> str ''gpt4all-lora-quantized''" by (simp add: str_def)
  have b: "str ''gpt4all-j'' \<noteq> str ''gpt4all-lora-unfiltered-quantized''" by (simp add: str_def)
  from constructor_supported_iff [where m = "str ''gpt4all-lora-unfiltered-quantized''" and f = False
      and d = "[] :: (jsstring \<times> jsstring) list" and w = exampleHost]
    constructor_supported_iff [where m = "str ''gpt4all-j''" and f = False
      and d = "[] :: (jsstring \<times> jsstring) list" and w = exampleHost]
  show ?thesis using a b by simp
qed

text \<open>
  C10. The \<open>forceDownload\<close> argument of the constructor changes nothing: two
  constructor calls that differ in it alone give the same outcome (the same controller,
  or the same error), and construction leaves the world as it was, with no request and
  no change to any file. Whether \<open>init\<close> downloads depends on the argument \<open>init\<close> is
  given.
\<close>

theorem constructor_ignores_forceDownload:
  "constructor m f1 d w = constructor m f2 d w \<and> snd (constructor m f1 d w) = w"
  by (simp add: constructor_def)

text \<open>On the example host the two calls agree, and the world is untouched.\<close>

theorem constructor_ignores_forceDownload_witness:
  "constructor (str ''gpt4all-lora-quantized'') True [(str ''temp'', str ''0.9'')] exampleHost =
     constructor (str ''gpt4all-lora-quantized'') False [(str ''temp'', str ''0.9'')] exampleHost \<and>
   snd (constructor (str ''gpt4all-lora-quantized'') True [(str ''temp'', str ''0.9'')] exampleHost) =
     exampleHost"
  by (rule constructor_ignores_forceDownload)

section \<open>Properties of prompt\<close>

text \<open>
  C5. Called while the handle is \<open>null\<close>, \<open>prompt\<close> throws the not-initialized
  error as a synchronous throw and leaves the world as it was: nothing is written to
  any input stream and no call is set up. Called while a handle is held, it returns
  the new call and has written the text followed by one newline to that process's
  input stream, and nothing else.
\<close>

theorem prompt_requires_session:
  "(bot c = None \<longrightarrow> prompt input c w = (Throws NotInitialized, w)) \<and>
   (\<forall>p. bot c = Some p \<longrightarrow>
      fst (prompt input c w) = Returns newCall \<and>
      trace (snd (prompt input c w)) = trace w @ [StdinWrite p (input @ [LF])] \<and>
      (p < length (children w) \<longrightarrow>
         stdinWritten (children (snd (prompt input c w)) ! p) =
           stdinWritten (children w ! p) @ [input @ [LF]]))"
  by (simp add: prompt_def stdinWrite_def logIO_def adjust_def)

text \<open>The fresh controller throws; with the handle 0 the line \<open>hi\<close> is written.\<close>

theorem prompt_requires_session_witness:
  "bot exampleController = None \<and>
   prompt (str ''hi'') exampleController exampleHost = (Throws NotInitialized, exampleHost) \<and>
   bot (exampleController\<lparr>bot := Some 0\<rparr>) = Some 0 \<and>
   fst (prompt (str ''hi'') (exampleController\<lparr>bot := Some 0\<rparr>) exampleHost) = Returns newCall \<and>
   trace (snd (prompt (str ''hi'') (exampleController\<lparr>bot := Some 0\<rparr>) exampleHost)) =
     trace exampleHost @ [StdinWrite 0 (str ''hi'' @ [LF])]"
proof -
  have a: "bot exampleController = None" by (simp add: exampleController_def)
  have b: "bot (exampleController\<lparr>bot := Some 0\<rparr>) = Some 0" by simp
  from prompt_requires_session [of exampleController "str ''hi''" exampleHost]
    prompt_requires_session [of "exampleController\<lparr>bot := Some 0\<rparr>" "str ''hi''" exampleHost]
  show ?thesis using a b by simp
qed

section \<open>Properties of open and close\<close>

lemma foldl_push:
  "foldl (\<lambda>acc (key, val). acc @ [g key, h val]) acc0 kvs =
     acc0 @ concat (map (\<lambda>(key, val). [g key, h val]) kvs)"
  by (induction kvs arbitrary: acc0) auto

lemma spawnArgs_eq:
  "spawnArgs toString c =
     [executablePath c, str ''--model'', modelPath c] @
     concat (map (\<lambda>(key, val). [str ''--'' @ key, toString val]) (decoderConfig c))"
  unfolding spawnArgs_def by (rule foldl_push)

lemma length_adjust: "length (adjust i f xs) = length xs"
  by (simp add: adjust_def)

lemma nth_adjust: "j < length xs \<Longrightarrow> adjust i f xs ! j = (if j = i then f (xs ! j) else xs ! j)"
  by (simp add: adjust_def nth_list_update)

lemma length_children_close: "length (children (snd (close c w))) = length (children w)"
  by (simp add: close_def kill_def logIO_def length_adjust split: option.splits)

text \<open>
  C8. Whatever the decoder options are, \<open>open\<close> spawns the executable path with the
  argument vector \<open>--model\<close>, the model path, and then, entry by entry in the order of
  the options, \<open>--\<close> joined to the key and the value turned into a string; keys and
  values are passed on as they are. The child so described is the one whose handle
  the controller then holds. (\<open>openStart\<close> is \<open>open\<close> up to its \<open>await\<close>.)
\<close>

theorem open_argv:
  "snd (open toString chunks c w) = openStart toString c w \<and>
   bot (fst (openStart toString c w)) = Some (length (children w)) \<and>
   children (snd (openStart toString c w)) ! length (children w) =
     \<lparr>command = executablePath c,
      args = [str ''--model'', modelPath c] @
             concat (map (\<lambda>(key, val). [str ''--'' @ key, toString val]) (decoderConfig c)),
      stdinWritten = [], killed = False\<rparr> \<and>
   last (trace (snd (openStart toString c w))) =
     Spawn (length (children w)) (executablePath c)
       ([str ''--model'', modelPath c] @
        concat (map (\<lambda>(key, val). [str ''--'' @ key, toString val]) (decoderConfig c)))"
proof (cases "bot c")
  case None
  then show ?thesis
    by (simp add: open_def split_beta openStart_def spawn_def logIO_def spawnArgs_eq Let_def)
next
  case (Some p)
  then show ?thesis
    by (simp add: open_def split_beta openStart_def spawn_def logIO_def spawnArgs_eq Let_def
        close_def kill_def length_adjust nth_append)
qed

text \<open>The example controller, with the options \<open>temp\<close> and \<open>top_k\<close>.\<close>

theorem open_argv_witness:
  "args (children (snd (openStart id exampleController exampleHost)) ! 0) =
     [str ''--model'', str ''/home/user/.nomic/gpt4all-lora-quantized.bin'',
      str ''--temp'', str ''0.9'', str ''--top_k'', str ''40''] \<and>
   command (children (snd (openStart id exampleController exampleHost)) ! 0) =
     str ''/home/user/.nomic/gpt4all''"
proof -
  have n: "length (children exampleHost) = 0"
    by (simp add: exampleHost_def)
  have s: "str ''--'' @ str ''temp'' = str ''--temp''" "str ''--'' @ str ''top_k'' = str ''--top_k''"
    by (simp_all add: str_def)
  from open_argv [of id "[]" exampleController exampleHost]
  show ?thesis
    by (simp add: n s exampleController_def)
qed

section \<open>Properties of init\<close>

lemma requests_append: "requests (xs @ ys) = requests xs @ requests ys"
  by (induction xs rule: requests.induct) simp_all

lemma newTrace_append: "trace w' = trace w @ xs \<Longrightarrow> newTrace w w' = xs"
  by (simp add: newTrace_def)

lemma downloadFile_trace:
  "\<exists>xs. trace (snd (downloadFile url dest w)) = trace w @ xs \<and> requests xs = [url]"
  by (auto simp: downloadFile_def logIO_def enqueue_def Let_def split: sum.splits option.splits)

lemma downloadModel_trace:
  "\<exists>xs. trace (snd (downloadModel c w)) = trace w @ xs \<and> requests xs = [modelUrl c]"
proof -
  obtain xs where xs: "trace (snd (downloadFile (modelUrl c) (modelPath c) w)) = trace w @ xs"
      "requests xs = [modelUrl c]"
    using downloadFile_trace by blast
  obtain p w1 where dl: "downloadFile (modelUrl c) (modelPath c) w = (p, w1)"
    by (cases "downloadFile (modelUrl c) (modelPath c) w")
  show ?thesis
    using xs dl
    by (cases p) (auto simp: downloadModel_def logIO_def requests_append)
qed

lemma chooseUpstream_trace:
  "\<exists>xs. trace (snd (chooseUpstream w)) = trace w @ xs \<and> requests xs = []"
  by (auto simp: chooseUpstream_def logIO_def Let_def split: sum.splits)

text \<open>The executable's download makes its one request once \<open>upstream\<close> is chosen.\<close>

lemma downloadExecutable_trace:
  "\<exists>xs. trace (snd (downloadExecutable c w)) = trace w @ xs \<and>
        requests xs = (case fst (chooseUpstream w) of Inl err \<Rightarrow> [] | Inr upstream \<Rightarrow> [upstream])"
proof -
  obtain r w1 where cu: "chooseUpstream w = (r, w1)"
    by (cases "chooseUpstream w")
  obtain xs where xs: "trace w1 = trace w @ xs" "requests xs = []"
    using chooseUpstream_trace [of w] cu by auto
  show ?thesis
  proof (cases r)
    case (Inl err)
    then show ?thesis using cu xs by (simp add: downloadExecutable_def)
  next
    case (Inr upstream)
    obtain p w2 where dl: "downloadFile upstream (executablePath c) w1 = (p, w2)"
      by (cases "downloadFile upstream (executablePath c) w1")
    obtain ys where ys: "trace w2 = trace w1 @ ys" "requests ys = [upstream]"
      using downloadFile_trace [of upstream "executablePath c" w1] dl by auto
    show ?thesis
      using Inr cu xs dl ys
      by (cases p) (auto simp: downloadExecutable_def logIO_def enqueue_def requests_append)
  qed
qed

lemma upstream_not_modelUrl:
  "upstreamM1 \<noteq> modelUrl c" "upstreamIntel \<noteq> modelUrl c"
  "upstreamLinux \<noteq> modelUrl c" "upstreamWin \<noteq> modelUrl c"
  by (simp_all add: upstreamM1_def upstreamIntel_def upstreamLinux_def upstreamWin_def
      modelUrl_def str_def)

lemma chooseUpstream_not_modelUrl:
  "fst (chooseUpstream w) = Inr upstream \<Longrightarrow> upstream \<noteq> modelUrl c"
  by (auto simp: chooseUpstream_def Let_def upstream_not_modelUrl split: if_splits sum.splits)

lemma init_requests:
  "\<exists>xs. trace (snd (init f c w)) = trace w @ xs \<and>
        requests xs =
          (if f \<or> \<not> existsSync w (executablePath c)
           then (case fst (chooseUpstream w) of Inl err \<Rightarrow> [] | Inr upstream \<Rightarrow> [upstream]) else []) @
          (if f \<or> \<not> existsSync w (modelPath c) then [modelUrl c] else [])"
proof -
  obtain p1 w1 where e: "downloadExecutable c w = (p1, w1)"
    by (cases "downloadExecutable c w")
  obtain xs where xs: "trace w1 = trace w @ xs"
      "requests xs = (case fst (chooseUpstream w) of Inl err \<Rightarrow> [] | Inr upstream \<Rightarrow> [upstream])"
    using downloadExecutable_trace [of c w] e by auto
  obtain p2 w2 where m: "downloadModel c w1 = (p2, w2)"
    by (cases "downloadModel c w1")
  obtain ys where ys: "trace w2 = trace w1 @ ys" "requests ys = [modelUrl c]"
    using downloadModel_trace [of c w1] m by auto
  obtain p3 w3 where m': "downloadModel c w = (p3, w3)"
    by (cases "downloadModel c w")
  obtain zs where zs: "trace w3 = trace w @ zs" "requests zs = [modelUrl c]"
    using downloadModel_trace [of c w] m' by auto
  show ?thesis
    using e xs m ys m' zs
    by (auto simp: init_def downloadPromises_def requests_append)
qed

text \<open>
  C6. \<open>init\<close> starts the download of an artifact if and only if \<open>forceDownload\<close> is
  set or the artifact's path does not exist; with \<open>forceDownload\<close> set it starts both,
  whatever exists. When both files exist, \<open>init(false)\<close> resolves with the empty list
  and leaves the world as it was: it makes no request. On the network: the request for
  the model weights is made exactly under that condition, and so is the request for the
  executable on a host for which \<open>downloadExecutable\<close> finds an upstream address (on any
  other host that download fails before it asks for anything).
\<close>

theorem init_fetches_iff:
  "(Executable \<in> set (downloadPromises f c w) \<longleftrightarrow> f \<or> \<not> existsSync w (executablePath c)) \<and>
   (Weights \<in> set (downloadPromises f c w) \<longleftrightarrow> f \<or> \<not> existsSync w (modelPath c)) \<and>
   downloadPromises True c w = [Executable, Weights] \<and>
   (existsSync w (executablePath c) \<and> existsSync w (modelPath c) \<longrightarrow>
      init False c w = (Fulfilled [], w) \<and> requests (newTrace w (snd (init False c w))) = []) \<and>
   (modelUrl c \<in> set (requests (newTrace w (snd (init f c w)))) \<longleftrightarrow>
      f \<or> \<not> existsSync w (modelPath c)) \<and>
   (\<forall>upstream. fst (chooseUpstream w) = Inr upstream \<longrightarrow>
      (upstream \<in> set (requests (newTrace w (snd (init f c w)))) \<longleftrightarrow>
         f \<or> \<not> existsSync w (executablePath c)))"
proof -
  obtain xs where xs: "trace (snd (init f c w)) = trace w @ xs"
      "requests xs =
          (if f \<or> \<not> existsSync w (executablePath c)
           then (case fst (chooseUpstream w) of Inl err \<Rightarrow> [] | Inr upstream \<Rightarrow> [upstream]) else []) @
          (if f \<or> \<not> existsSync w (modelPath c) then [modelUrl c] else [])"
    using init_requests by blast
  have nt: "newTrace w (snd (init f c w)) = xs"
    using xs(1) by (rule newTrace_append)
  have a: "Executable \<in> set (downloadPromises f c w) \<longleftrightarrow> f \<or> \<not> existsSync w (executablePath c)"
    by (simp add: downloadPromises_def)
  have b: "Weights \<in> set (downloadPromises f c w) \<longleftrightarrow> f \<or> \<not> existsSync w (modelPath c)"
    by (simp add: downloadPromises_def)
  have d: "downloadPromises True c w = [Executable, Weights]"
    by (simp add: downloadPromises_def)
  have e: "init False c w = (Fulfilled [], w) \<and> requests (newTrace w (snd (init False c w))) = []"
    if "existsSync w (executablePath c)" "existsSync w (modelPath c)"
    using that by (simp add: init_def downloadPromises_def newTrace_def)
  have g: "modelUrl c \<in> set (requests (newTrace w (snd (init f c w)))) \<longleftrightarrow>
      f \<or> \<not> existsSync w (modelPath c)"
  proof (cases "fst (chooseUpstream w)")
    case (Inl err)
    have "requests (newTrace w (snd (init f c w))) =
        (if f \<or> \<not> existsSync w (modelPath c) then [modelUrl c] else [])"
      using Inl xs(2) nt by simp
    then show ?thesis by simp
  next
    case (Inr upstream)
    then have "upstream \<noteq> modelUrl c" using chooseUpstream_not_modelUrl by blast
    moreover have "requests (newTrace w (snd (init f c w))) =
        (if f \<or> \<not> existsSync w (executablePath c) then [upstream] else []) @
        (if f \<or> \<not> existsSync w (modelPath c) then [modelUrl c] else [])"
      using Inr xs(2) nt by simp
    ultimately show ?thesis by auto
  qed
  have h: "upstream \<in> set (requests (newTrace w (snd (init f c w)))) \<longleftrightarrow>
         f \<or> \<not> existsSync w (executablePath c)"
    if "fst (chooseUpstream w) = Inr upstream" for upstream
  proof -
    have "upstream \<noteq> modelUrl c" using that chooseUpstream_not_modelUrl by blast
    moreover have "requests (newTrace w (snd (init f c w))) =
        (if f \<or> \<not> existsSync w (executablePath c) then [upstream] else []) @
        (if f \<or> \<not> existsSync w (modelPath c) then [modelUrl c] else [])"
      using that xs(2) nt by simp
    ultimately show ?thesis by auto
  qed
  show ?thesis
    using a b d e g h by blast
qed

text \<open>
  On the host with both artifacts in place \<open>init(false)\<close> does nothing; on the bare
  Linux host it asks for the Linux executable.
\<close>

theorem init_fetches_iff_witness:
  "existsSync provisionedHost (executablePath exampleController) \<and>
   existsSync provisionedHost (modelPath exampleController) \<and>
   init False exampleController provisionedHost = (Fulfilled [], provisionedHost) \<and>
   fst (chooseUpstream exampleHost) = Inr upstreamLinux \<and>
   \<not> existsSync exampleHost (executablePath exampleController) \<and>
   upstreamLinux \<in> set (requests (newTrace exampleHost (snd (init False exampleController exampleHost))))"
proof -
  have a: "existsSync provisionedHost (executablePath exampleController)"
    by (simp add: existsSync_def provisionedHost_def exampleController_def)
  have b: "existsSync provisionedHost (modelPath exampleController)"
    by (simp add: existsSync_def provisionedHost_def exampleController_def)
  have l: "str ''linux'' \<noteq> str ''darwin''"
    by (simp add: str_def)
  have u: "fst (chooseUpstream exampleHost) = Inr upstreamLinux"
    by (simp add: chooseUpstream_def exampleHost_def l)
  have n: "\<not> existsSync exampleHost (executablePath exampleController)"
    by (simp add: existsSync_def exampleHost_def)
  from init_fetches_iff [of False exampleController provisionedHost]
    init_fetches_iff [of False exampleController exampleHost]
  show ?thesis using a b u n by simp
qed

section \<open>One session at a time\<close>

lemma liveChildren_kill: "liveChildren (kill p w) = filter (\<lambda>q. q \<noteq> p) (liveChildren w)"
proof -
  have "filter (\<lambda>q. \<not> killed (adjust p (\<lambda>ch. ch\<lparr>killed := True\<rparr>) (children w) ! q)) [0..<length (children w)]
      = filter (\<lambda>q. q \<noteq> p \<and> \<not> killed (children w ! q)) [0..<length (children w)]"
    by (rule filter_cong) (auto simp: nth_adjust)
  then show ?thesis
    by (simp add: liveChildren_def kill_def logIO_def length_adjust conj_commute)
qed

lemma liveChildren_spawn:
  "liveChildren (snd (spawn cmd argv w)) = liveChildren w @ [length (children w)]"
proof -
  have "filter (\<lambda>p. \<not> killed ((children w @ [\<lparr>command = cmd, args = argv, stdinWritten = [], killed = False\<rparr>]) ! p))
          [0..<length (children w)]
      = filter (\<lambda>p. \<not> killed (children w ! p)) [0..<length (children w)]"
    by (rule filter_cong) (auto simp: nth_append)
  then show ?thesis
    by (simp add: liveChildren_def spawn_def logIO_def Let_def)
qed

lemma liveChildren_stdinWrite: "liveChildren (stdinWrite p data w) = liveChildren w"
proof -
  have "filter (\<lambda>q. \<not> killed (adjust p (\<lambda>ch. ch\<lparr>stdinWritten := stdinWritten ch @ [data]\<rparr>) (children w) ! q))
          [0..<length (children w)]
      = filter (\<lambda>q. \<not> killed (children w ! q)) [0..<length (children w)]"
    by (rule filter_cong) (auto simp: nth_adjust)
  then show ?thesis
    by (simp add: liveChildren_def stdinWrite_def logIO_def length_adjust)
qed

subsection \<open>The downloads touch no child process\<close>

lemma children_downloadFile: "children (snd (downloadFile url dest w)) = children w"
  by (simp add: downloadFile_def logIO_def enqueue_def Let_def split: sum.splits option.splits)

lemma children_chooseUpstream: "children (snd (chooseUpstream w)) = children w"
  by (simp add: chooseUpstream_def logIO_def Let_def split: sum.splits)

lemma children_downloadModel: "children (snd (downloadModel c w)) = children w"
proof -
  obtain p w1 where dl: "downloadFile (modelUrl c) (modelPath c) w = (p, w1)"
    by (cases "downloadFile (modelUrl c) (modelPath c) w")
  then have "children w1 = children w"
    using children_downloadFile [of "modelUrl c" "modelPath c" w] by simp
  then show ?thesis
    using dl by (cases p) (simp_all add: downloadModel_def logIO_def)
qed

lemma children_downloadExecutable: "children (snd (downloadExecutable c w)) = children w"
proof -
  obtain r w1 where cu: "chooseUpstream w = (r, w1)"
    by (cases "chooseUpstream w")
  then have w1: "children w1 = children w"
    using children_chooseUpstream [of w] by simp
  show ?thesis
  proof (cases r)
    case (Inl err)
    then show ?thesis using cu w1 by (simp add: downloadExecutable_def)
  next
    case (Inr upstream)
    obtain p w2 where dl: "downloadFile upstream (executablePath c) w1 = (p, w2)"
      by (cases "downloadFile upstream (executablePath c) w1")
    then have "children w2 = children w1"
      using children_downloadFile [of upstream "executablePath c" w1] by simp
    then show ?thesis
      using Inr cu w1 dl by (cases p) (simp_all add: downloadExecutable_def logIO_def enqueue_def)
  qed
qed

lemma children_runDownloads: "children (snd (runDownloads ds c w)) = children w"
proof (induction ds arbitrary: w)
  case Nil
  show ?case by simp
next
  case (Cons d ds)
  obtain p w1 where s: "startDownload d c w = (p, w1)"
    by (cases "startDownload d c w")
  have "children w1 = children w"
    using s children_downloadExecutable [of c w] children_downloadModel [of c w]
    by (cases d) simp_all
  moreover obtain ps w2 where r: "runDownloads ds c w1 = (ps, w2)"
    by (cases "runDownloads ds c w1")
  moreover have "children w2 = children w1"
    using Cons.IH [of w1] r by simp
  ultimately show ?case
    using s by simp
qed

lemma children_init: "children (snd (init f c w)) = children w"
proof -
  obtain ps w1 where r: "runDownloads (downloadPromises f c w) c w = (ps, w1)"
    by (cases "runDownloads (downloadPromises f c w) c w")
  then show ?thesis
    using children_runDownloads [of "downloadPromises f c w" c w] by (simp add: init_def)
qed

lemma liveChildren_children: "children w' = children w \<Longrightarrow> liveChildren w' = liveChildren w"
  by (simp add: liveChildren_def)

subsection \<open>Every operation keeps the invariant\<close>

lemma oneSession_close:
  assumes "oneSession c w"
  shows "oneSession (fst (close c w)) (snd (close c w))"
  using assms by (auto simp: oneSession_def close_def liveChildren_kill split: option.splits)

lemma liveChildren_close:
  assumes "oneSession c w"
  shows "liveChildren (snd (close c w)) = []" and "bot (fst (close c w)) = None"
  using assms by (auto simp: oneSession_def close_def liveChildren_kill split: option.splits)

lemma openStart_close: "openStart toString c w = openStart toString (fst (close c w)) (snd (close c w))"
  by (simp add: openStart_def close_def split: option.splits)

lemma openStart_closed:
  assumes "bot c = None"
  shows "openStart toString c w =
           (c\<lparr>bot := Some (length (children w))\<rparr>,
            snd (spawn (hd (spawnArgs toString c)) (tl (spawnArgs toString c)) w))"
  using assms by (simp add: openStart_def spawn_def Let_def)

lemma oneSession_openStart:
  assumes "oneSession c w"
  shows "oneSession (fst (openStart toString c w)) (snd (openStart toString c w))"
proof -
  let ?c = "fst (close c w)" and ?w = "snd (close c w)"
  have "liveChildren ?w = []" and n: "bot ?c = None"
    using liveChildren_close [OF assms] by simp_all
  then show ?thesis
    by (simp add: openStart_close [of toString c w] openStart_closed [OF n] liveChildren_spawn
        oneSession_def length_children_close)
qed

lemma oneSession_perform:
  assumes "oneSession (fst s) (snd s)"
  shows "oneSession (fst (perform toString x s)) (snd (perform toString x s))"
proof (cases s)
  case (Pair c w)
  with assms have inv: "oneSession c w" by simp
  show ?thesis
  proof (cases x)
    case (CallInit f)
    then show ?thesis
      using inv Pair liveChildren_children [OF children_init, of f c w]
      by (simp add: oneSession_def)
  next
    case (CallOpen chunks)
    then show ?thesis
      using oneSession_openStart [OF inv, of toString] Pair
      by (simp add: open_def split_beta)
  next
    case CallClose
    then show ?thesis using oneSession_close [OF inv] Pair by simp
  next
    case (CallPrompt input)
    then show ?thesis
      using inv Pair
      by (simp add: oneSession_def prompt_def liveChildren_stdinWrite split: option.splits)
  qed
qed

lemma oneSession_performAll:
  assumes "oneSession (fst s) (snd s)"
  shows "oneSession (fst (performAll toString xs s)) (snd (performAll toString xs s))"
  using assms
proof (induction xs arbitrary: s)
  case Nil
  then show ?case by simp
next
  case (Cons x xs)
  show ?case
    using Cons.IH [OF oneSession_perform [OF Cons.prems, of toString x]] by simp
qed

lemma oneSession_length: "oneSession c w \<Longrightarrow> length (liveChildren w) \<le> 1"
  by (simp add: oneSession_def split: option.splits)

lemma readiness_not_Rejected: "readiness chunks \<noteq> Rejected err"
  by (simp add: readiness_def)

lemma oneSession_example: "oneSession exampleController exampleHost"
  by (simp add: oneSession_def liveChildren_def exampleController_def exampleHost_def)

text \<open>
  C7. In a world whose live children are exactly the handle the controller holds,
  any sequence of calls of \<open>init\<close>, \<open>open\<close>, \<open>close\<close> and \<open>prompt\<close> leaves it so: at
  most one child on which \<open>kill\<close> has not been called, and that one is the handle
  held. \<open>open\<close> on a controller that holds the handle \<open>p\<close> does what \<open>close\<close> does
  (kills \<open>p\<close>, clears the handle) and then what \<open>open\<close> does on the closed controller:
  the trace gains the kill of \<open>p\<close> and after it the spawn, \<open>p\<close> is killed, and the
  new child is the only live one and the handle held. The promise of \<open>open\<close> is never
  rejected. (\<open>openStart\<close> is \<open>open\<close> up to its \<open>await\<close>.)
\<close>

theorem open_replaces_session:
  assumes "oneSession c w"
  shows "oneSession (fst (performAll toString calls (c, w))) (snd (performAll toString calls (c, w))) \<and>
         length (liveChildren (snd (performAll toString calls (c, w)))) \<le> 1 \<and>
         (\<forall>p. bot c = Some p \<longrightarrow>
            close c w = (c\<lparr>bot := None\<rparr>, kill p w) \<and>
            openStart toString c w = openStart toString (c\<lparr>bot := None\<rparr>) (kill p w) \<and>
            trace (snd (openStart toString c w)) =
              trace w @ [Kill p, Spawn (length (children w)) (hd (spawnArgs toString c)) (tl (spawnArgs toString c))] \<and>
            killed (children (snd (openStart toString c w)) ! p) \<and>
            bot (fst (openStart toString c w)) = Some (length (children w)) \<and>
            liveChildren (snd (openStart toString c w)) = [length (children w)]) \<and>
         snd (open toString chunks c w) = openStart toString c w \<and>
         (\<forall>err. fst (open toString chunks c w) \<noteq> Rejected err)"
proof -
  have inv: "oneSession (fst (performAll toString calls (c, w))) (snd (performAll toString calls (c, w)))"
    using oneSession_performAll [of "(c, w)" toString calls] assms by simp
  have live: "close c w = (c\<lparr>bot := None\<rparr>, kill p w) \<and>
            openStart toString c w = openStart toString (c\<lparr>bot := None\<rparr>) (kill p w) \<and>
            trace (snd (openStart toString c w)) =
              trace w @ [Kill p, Spawn (length (children w)) (hd (spawnArgs toString c)) (tl (spawnArgs toString c))] \<and>
            killed (children (snd (openStart toString c w)) ! p) \<and>
            bot (fst (openStart toString c w)) = Some (length (children w)) \<and>
            liveChildren (snd (openStart toString c w)) = [length (children w)]"
    if p: "bot c = Some p" for p
  proof -
    have cl: "close c w = (c\<lparr>bot := None\<rparr>, kill p w)"
      using p by (simp add: close_def)
    have "liveChildren w = [p]"
      using assms p by (simp add: oneSession_def)
    then have "p \<in> set (liveChildren w)" by simp
    then have plt: "p < length (children w)"
      by (simp add: liveChildren_def)
    have os: "openStart toString c w = openStart toString (c\<lparr>bot := None\<rparr>) (kill p w)"
      using openStart_close [of toString c w] cl by simp
    have args: "spawnArgs toString (c\<lparr>bot := None\<rparr>) = spawnArgs toString c"
      by (simp add: spawnArgs_def)
    have tr: "trace (snd (openStart toString c w)) =
              trace w @ [Kill p, Spawn (length (children w)) (hd (spawnArgs toString c)) (tl (spawnArgs toString c))]"
      unfolding os
      by (simp add: openStart_def spawn_def Let_def args logIO_def kill_def length_adjust)
    have kd: "killed (children (snd (openStart toString c w)) ! p)"
      unfolding os using plt
      by (simp add: openStart_def spawn_def Let_def logIO_def kill_def nth_adjust length_adjust nth_append)
    have b: "bot (fst (openStart toString c w)) = Some (length (children w))"
      unfolding os by (simp add: openStart_def spawn_def Let_def kill_def logIO_def length_adjust)
    have "oneSession (fst (openStart toString c w)) (snd (openStart toString c w))"
      using oneSession_openStart [OF assms] .
    then have lc: "liveChildren (snd (openStart toString c w)) = [length (children w)]"
      using b by (simp add: oneSession_def)
    show ?thesis using cl os tr kd b lc by blast
  qed
  have nr: "fst (open toString chunks c w) \<noteq> Rejected err" for err
    by (simp add: open_def split_beta readiness_not_Rejected)
  have op: "snd (open toString chunks c w) = openStart toString c w"
    by (simp add: open_def split_beta)
  show ?thesis
    using inv oneSession_length [OF inv] live nr op by blast
qed

text \<open>
  The example controller opened twice: after the first \<open>open\<close> it holds the handle 0;
  the second kills child 0 and leaves child 1 as the only live one.
\<close>

theorem open_replaces_session_witness:
  "oneSession exampleController exampleHost \<and>
   length (liveChildren (snd (performAll id [CallOpen [], CallOpen []] (exampleController, exampleHost)))) \<le> 1 \<and>
   oneSession (fst (openStart id exampleController exampleHost))
     (snd (openStart id exampleController exampleHost)) \<and>
   bot (fst (openStart id exampleController exampleHost)) = Some 0 \<and>
   killed (children (snd (openStart id (fst (openStart id exampleController exampleHost))
     (snd (openStart id exampleController exampleHost)))) ! 0) \<and>
   liveChildren (snd (openStart id (fst (openStart id exampleController exampleHost))
     (snd (openStart id exampleController exampleHost)))) = [1]"
proof -
  define c1 where "c1 = fst (openStart id exampleController exampleHost)"
  define w1 where "w1 = snd (openStart id exampleController exampleHost)"
  have n: "bot exampleController = None"
    by (simp add: exampleController_def)
  have i1: "oneSession c1 w1"
    unfolding c1_def w1_def by (rule oneSession_openStart [OF oneSession_example])
  have b1: "bot c1 = Some 0"
    unfolding c1_def by (simp add: openStart_closed [OF n] exampleHost_def)
  have l1: "length (children w1) = 1"
    unfolding w1_def by (simp add: openStart_closed [OF n] spawn_def logIO_def Let_def exampleHost_def)
  note first = open_replaces_session [OF oneSession_example, of id "[CallOpen [], CallOpen []]" "[]"]
  note second = open_replaces_session [OF i1, of id "[]" "[]"]
  have "killed (children (snd (openStart id c1 w1)) ! 0) \<and>
        liveChildren (snd (openStart id c1 w1)) = [length (children w1)]"
    using second b1 by blast
  then have "killed (children (snd (openStart id c1 w1)) ! 0) \<and> liveChildren (snd (openStart id c1 w1)) = [1]"
    by (simp add: l1)
  moreover have "length (liveChildren (snd (performAll id [CallOpen [], CallOpen []]
      (exampleController, exampleHost)))) \<le> 1"
    using first by blast
  ultimately show ?thesis
    using i1 b1 oneSession_example unfolding c1_def w1_def by blast
qed

section \<open>The permission bits of the executable\<close>

text \<open>Where \<open>chmod\<close> succeeds, the queued call leaves the executable with mode \<open>0o755\<close>.\<close>

lemma executable_mode_after_download:
  assumes dl: "downloadExecutable c w = (Fulfilled (), w1)"
    and ok: "fsFailure w (OpChmod (executablePath c)) = None"
    and idle: "pending w = []"
  shows "map_option mode (files (runPending w1) (executablePath c)) = Some mode755"
proof -
  obtain r w0 where cu: "chooseUpstream w = (r, w0)"
    by (cases "chooseUpstream w")
  have w0: "fsFailure w0 = fsFailure w" "pending w0 = pending w" "homedir w0 = homedir w"
    using cu by (auto simp: chooseUpstream_def logIO_def Let_def split: if_splits sum.splits)
  obtain upstream where r: "r = Inr upstream"
    using dl cu by (cases r) (auto simp: downloadExecutable_def)
  obtain p w2 where df: "downloadFile upstream (executablePath c) w0 = (p, w2)"
    by (cases "downloadFile upstream (executablePath c) w0")
  have p: "p = Fulfilled ()"
    using dl cu r df by (cases p) (auto simp: downloadExecutable_def)
  have w2: "fsFailure w2 = fsFailure w" "pending w2 = [MkdirTask (homedir w @ str ''/.nomic/'')]"
      "files w2 (executablePath c) \<noteq> None"
    using df p w0 idle
    by (auto simp: downloadFile_def logIO_def enqueue_def Let_def split: sum.splits option.splits)
  have w1: "w1 = logIO (ConsoleLog (str ''File downloaded successfully to '' @ executablePath c))
                  (enqueue (ChmodTask (executablePath c) mode755) w2)"
    using dl cu r df p by (simp add: downloadExecutable_def)
  obtain f where f: "files w2 (executablePath c) = Some f"
    using w2(3) by blast
  show ?thesis
    using ok f
    by (simp add: w1 runPending_def logIO_def enqueue_def w2 Let_def split: option.splits)
qed

text \<open>
  C3, at a failing input. On the host where \<open>chmod\<close> of the executable fails,
  \<open>init(true)\<close> is fulfilled all the same: the error of \<open>chmod\<close> is thrown from the
  callback, where it reaches no promise, and ends among the uncaught errors; the
  executable keeps the mode it was created with.
\<close>

theorem chmod_failure_not_surfaced:
  "fst (init True exampleController chmodFailingHost) = Fulfilled [(), ()] \<and>
   uncaught (runPending (snd (init True exampleController chmodFailingHost))) =
     [RuntimeError (str ''EPERM: operation not permitted, chmod'')] \<and>
   map_option mode (files (runPending (snd (init True exampleController chmodFailingHost)))
     (executablePath exampleController)) = Some (6 * 8 ^ 2 + 4 * 8 + 4)"
proof -
  let ?exe = "str ''/home/user/.nomic/gpt4all''"
  let ?bin = "str ''/home/user/.nomic/gpt4all-lora-quantized.bin''"
  have neq: "?bin \<noteq> ?exe" by (simp add: str_def)
  have l: "str ''linux'' \<noteq> str ''darwin''" by (simp add: str_def)
  define w1 where "w1 = snd (downloadExecutable exampleController chmodFailingHost)"
  have e: "downloadExecutable exampleController chmodFailingHost = (Fulfilled (), w1)"
    unfolding w1_def
    by (simp add: downloadExecutable_def chooseUpstream_def l downloadFile_def Let_def logIO_def
        enqueue_def chmodFailingHost_def exampleHost_def exampleController_def)
  have w1: "pending w1 = [MkdirTask (str ''/home/user'' @ str ''/.nomic/''), ChmodTask ?exe mode755]"
      "uncaught w1 = []" "map_option mode (files w1 ?exe) = Some (6 * 8 ^ 2 + 4 * 8 + 4)"
      "fsFailure w1 = fsFailure chmodFailingHost" "remote w1 = remote chmodFailingHost"
    unfolding w1_def
    by (simp_all add: downloadExecutable_def chooseUpstream_def l downloadFile_def Let_def
        chmodFailingHost_def exampleHost_def exampleController_def logIO_def enqueue_def)
  define w2 where "w2 = snd (downloadModel exampleController w1)"
  have m: "downloadModel exampleController w1 = (Fulfilled (), w2)"
    unfolding w2_def
    by (simp add: downloadModel_def downloadFile_def Let_def w1 chmodFailingHost_def exampleHost_def)
  have w2: "pending w2 = [MkdirTask (str ''/home/user'' @ str ''/.nomic/''), ChmodTask ?exe mode755,
        MkdirTask (homedir w1 @ str ''/.nomic/'')]"
      "uncaught w2 = []" "map_option mode (files w2 ?exe) = Some (6 * 8 ^ 2 + 4 * 8 + 4)"
      "fsFailure w2 = fsFailure chmodFailingHost"
    unfolding w2_def using neq
    by (simp_all add: downloadModel_def downloadFile_def Let_def enqueue_def w1 chmodFailingHost_def
        exampleHost_def logIO_def exampleController_def)
  have i: "init True exampleController chmodFailingHost = (Fulfilled [(), ()], w2)"
    by (simp add: init_def downloadPromises_def e m)
  have u: "uncaught (runPending w2) = [RuntimeError (str ''EPERM: operation not permitted, chmod'')]"
    by (simp add: runPending_def w2 logIO_def chmodFailingHost_def)
  have f: "map_option mode (files (runPending w2) ?exe) = Some (6 * 8 ^ 2 + 4 * 8 + 4)"
    using w2(3) by (simp add: runPending_def w2 logIO_def chmodFailingHost_def)
  have x: "executablePath exampleController = ?exe"
    by (simp add: exampleController_def)
  show ?thesis
    using u f by (simp add: i x)
qed

end
